theory Spec2Isabelle
  imports Complex_Main
begin

section \<open>Certificate expiry watcher: the sweep over groups and sites\<close>

text \<open>
  The program reads a list of watch groups, dials every site of every group over TLS, reads the
  expiry of the first certificate the peer presents, turns the time left into whole days, and
  sends one WeCom (wxwork) message per group. This theory embeds \<^verbatim>\<open>crtwtch.go\<close>:
  \<^item> the arithmetic of \<^verbatim>\<open>int(expire.Sub(today).Hours() / 24)\<close>, with Go's saturating
    \<^verbatim>\<open>Time.Sub\<close>, truncating integer division and binary64 rounding written out;
  \<^item> \<^verbatim>\<open>GetExpirationDate\<close>, \<^verbatim>\<open>SendWxwork\<close> and the two nested loops of \<^verbatim>\<open>main\<close>, as functions
    that pass the trace of external calls along; the answers of the network, of the clock and of
    the date formatter are parameters (a record \<open>env\<close>).
  The part of \<^verbatim>\<open>main\<close> before the loop (flags, reading and decoding the configuration file) and
  the \<^verbatim>\<open>slog\<close> calls are left out: the loop starts from the decoded \<open>Config\<close>, and no property
  below reads the log.
\<close>

subsection \<open>IEEE 754 binary64, as far as the day count needs it\<close>

text \<open>
  A float64 is modelled by the rational it denotes. \<open>f64_round\<close> is rounding to nearest, ties to
  even, with 53 bits of precision and the subnormal range below \<open>2 powi (-1022)\<close>; every
  arithmetic operation of Go on float64 is the exact operation followed by \<open>f64_round\<close>.
  Overflow to infinity is not modelled: the values rounded here are hours of an int64 count of
  nanoseconds, below \<open>2 ^ 22\<close> in magnitude. \<open>bits_Len\<close> is the length of a positive
  integer in bits, \<open>ilog2 x\<close> the exponent \<open>e\<close> with \<open>2 powi e \<le> x < 2 powi (e + 1)\<close> for \<open>x > 0\<close>.
\<close>

function bits_Len :: "int \<Rightarrow> nat" where
  "bits_Len n = (if n \<le> 0 then 0 else Suc (bits_Len (n div 2)))"
  by pat_completeness auto
termination
  by (relation "measure nat") auto

declare bits_Len.simps [simp del]

definition ilog2 :: "rat \<Rightarrow> int" where
  "ilog2 x = (if 1 \<le> x then int (bits_Len \<lfloor>x\<rfloor>) - 1
              else - int (bits_Len (\<lceil>1 / x\<rceil> - 1)))"

definition rne :: "rat \<Rightarrow> int" where
  "rne q = (let f = \<lfloor>q\<rfloor>; r = q - of_int f in
            if r < 1 / 2 then f
            else if 1 / 2 < r then f + 1
            else if even f then f else f + 1)"

definition f64_exp :: "rat \<Rightarrow> int" where
  "f64_exp x = max (ilog2 \<bar>x\<bar>) (- 1022)"

definition f64_round :: "rat \<Rightarrow> rat" where
  "f64_round x =
     (if x = 0 then 0
      else let u = 2 powi (f64_exp x - 52)
           in sgn x * of_int (rne (\<bar>x\<bar> / u)) * u)"

text \<open>\<^verbatim>\<open>float64(n)\<close> of an integer, and \<^verbatim>\<open>int(f)\<close> of a float64 in range (the fraction is dropped).\<close>

definition float64 :: "int \<Rightarrow> rat" where
  "float64 n = f64_round (of_int n)"

definition go_int :: "rat \<Rightarrow> int" where
  "go_int f = (if 0 \<le> f then \<lfloor>f\<rfloor> else \<lceil>f\<rceil>)"

subsection \<open>Instants and durations\<close>

text \<open>
  An instant is its count of nanoseconds on the time line, a \<^verbatim>\<open>time.Duration\<close> an int64 count
  of nanoseconds. \<^verbatim>\<open>t.Sub(u)\<close> saturates at the least and the greatest Duration. Go's \<^verbatim>\<open>/\<close> and
  \<^verbatim>\<open>%\<close> on integers truncate toward zero (\<open>int_quo\<close>, \<open>int_rem\<close>). \<open>Hours\<close> is
  \<^verbatim>\<open>Duration.Hours\<close> of the standard library:
  \<^verbatim>\<open>hour := d / Hour; nsec := d % Hour; return float64(hour) + float64(nsec)/(60*60*1e9)\<close>.
\<close>

type_synonym Time = int
type_synonym Duration = int

definition minDuration :: Duration where
  "minDuration = - (2 ^ 63)"

definition maxDuration :: Duration where
  "maxDuration = 2 ^ 63 - 1"

definition Sub :: "Time \<Rightarrow> Time \<Rightarrow> Duration" where
  "Sub t u = (if t - u < minDuration then minDuration
              else if maxDuration < t - u then maxDuration else t - u)"

definition int_quo :: "int \<Rightarrow> int \<Rightarrow> int" where
  "int_quo a b = sgn a * sgn b * (\<bar>a\<bar> div \<bar>b\<bar>)"

definition int_rem :: "int \<Rightarrow> int \<Rightarrow> int" where
  "int_rem a b = a - b * int_quo a b"

definition Hour :: Duration where
  "Hour = 3600000000000"

definition Hours :: "Duration \<Rightarrow> rat" where
  "Hours d = (let hour = int_quo d Hour; nsec = int_rem d Hour
              in f64_round (float64 hour + f64_round (float64 nsec / 3600000000000)))"

text \<open>Line 115: \<^verbatim>\<open>daysLeft := int(expire.Sub(today).Hours() / 24)\<close>.\<close>

definition daysLeft :: "Time \<Rightarrow> Time \<Rightarrow> int" where
  "daysLeft expire today = go_int (f64_round (Hours (Sub expire today) / 24))"

subsection \<open>Formatting\<close>

text \<open>
  Go strings are byte strings; the message templates of the source are UTF-8 and written here
  byte by byte. \<open>Sprintf_d\<close> is the verb \<^verbatim>\<open>%d\<close>, \<open>Join\<close> is \<^verbatim>\<open>strings.Join\<close>. The five
  \<open>Sprintf_\<close> functions are the five message formats of \<^verbatim>\<open>main\<close>: a failed check (line 112),
  a certificate about to expire (line 118), an expired certificate (line 120), the report of a
  group without alerts (line 125) and the report of a group with alerts (line 129).
\<close>

function Sprintf_digits :: "int \<Rightarrow> string" where
  "Sprintf_digits n =
     (if n < 10 then [''0123456789'' ! nat n]
      else Sprintf_digits (n div 10) @ [''0123456789'' ! nat (n mod 10)])"
  by pat_completeness auto
termination
  by (relation "measure nat") auto

declare Sprintf_digits.simps [simp del]

definition Sprintf_d :: "int \<Rightarrow> string" where
  "Sprintf_d i = (if i < 0 then CHR ''-'' # Sprintf_digits (- i) else Sprintf_digits i)"

fun Join :: "string list \<Rightarrow> string \<Rightarrow> string" where
  "Join [] sep = []"
| "Join [a] sep = a"
| "Join (a # b # elems) sep = a @ sep @ Join (b # elems) sep"

definition Sprintf_check_failed :: "string \<Rightarrow> string" where
  "Sprintf_check_failed site =
     [CHR 0xE2, CHR 0x9D, CHR 0x97, CHR 0x20, CHR 0xE6, CHR 0xA3, CHR 0x80, CHR 0xE6,
        CHR 0xB5, CHR 0x8B, CHR 0xE5, CHR 0xA4, CHR 0xB1, CHR 0xE8, CHR 0xB4, CHR 0xA5,
        CHR 0x3A, CHR 0x20] @ site"

definition Sprintf_expiring :: "string \<Rightarrow> int \<Rightarrow> string \<Rightarrow> string" where
  "Sprintf_expiring site days date =
     [CHR 0xE2, CHR 0x9A, CHR 0xA0, CHR 0xEF, CHR 0xB8, CHR 0x8F, CHR 0x20, CHR 0xE8,
        CHR 0xAF, CHR 0x81, CHR 0xE4, CHR 0xB9, CHR 0xA6, CHR 0xE5, CHR 0x8D, CHR 0xB3,
        CHR 0xE5, CHR 0xB0, CHR 0x86, CHR 0xE8, CHR 0xBF, CHR 0x87, CHR 0xE6, CHR 0x9C,
        CHR 0x9F, CHR 0x3A, CHR 0x20] @ site @
     [CHR 0x20, CHR 0xE8, CHR 0xBF, CHR 0x98, CHR 0xE6, CHR 0x9C, CHR 0x89, CHR 0x20] @ Sprintf_d days @
     [CHR 0x20, CHR 0xE5, CHR 0xA4, CHR 0xA9, CHR 0x20, CHR 0x28, CHR 0xE5, CHR 0x88,
        CHR 0xB0, CHR 0xE6, CHR 0x9C, CHR 0x9F, CHR 0xE6, CHR 0x97, CHR 0xA5, CHR 0x3A,
        CHR 0x20] @ date @ '')''"

definition Sprintf_expired :: "string \<Rightarrow> string \<Rightarrow> string" where
  "Sprintf_expired site date =
     [CHR 0xE2, CHR 0x9D, CHR 0x97, CHR 0x20, CHR 0xE8, CHR 0xAF, CHR 0x81, CHR 0xE4,
        CHR 0xB9, CHR 0xA6, CHR 0xE5, CHR 0xB7, CHR 0xB2, CHR 0xE8, CHR 0xBF, CHR 0x87,
        CHR 0xE6, CHR 0x9C, CHR 0x9F, CHR 0x3A, CHR 0x20] @ site @
     [CHR 0x20, CHR 0x28, CHR 0xE5, CHR 0x88, CHR 0xB0, CHR 0xE6, CHR 0x9C, CHR 0x9F,
        CHR 0xE6, CHR 0x97, CHR 0xA5, CHR 0x3A, CHR 0x20] @ date @ '')''"

definition Sprintf_all_clear :: "string \<Rightarrow> string \<Rightarrow> int \<Rightarrow> string" where
  "Sprintf_all_clear date name n =
     [CHR 0xE2, CHR 0x9C, CHR 0x85, CHR 0x20, CHR 0x5B] @ date @
     [CHR 0x5D, CHR 0x20, CHR 0xE7, CHR 0xBB, CHR 0x84, CHR 0x20] @ name @
     [CHR 0x20, CHR 0xE7, CHR 0x9A, CHR 0x84, CHR 0xE8, CHR 0xAF, CHR 0x81, CHR 0xE4,
        CHR 0xB9, CHR 0xA6, CHR 0xE7, CHR 0x9B, CHR 0x91, CHR 0xE6, CHR 0x8E, CHR 0xA7,
        CHR 0xE6, CHR 0xAD, CHR 0xA3, CHR 0xE5, CHR 0xB8, CHR 0xB8, CHR 0xEF, CHR 0xBC,
        CHR 0x8C, CHR 0xE5, CHR 0x85, CHR 0xB1, CHR 0x20] @ Sprintf_d n @
     [CHR 0x20, CHR 0xE4, CHR 0xB8, CHR 0xAA]"

definition Sprintf_problems :: "string \<Rightarrow> string \<Rightarrow> int \<Rightarrow> string \<Rightarrow> string" where
  "Sprintf_problems date name n lines =
     [CHR 0xF0, CHR 0x9F, CHR 0x9A, CHR 0xA8, CHR 0x20, CHR 0x5B] @ date @
     [CHR 0x5D, CHR 0x20, CHR 0xE7, CHR 0xBB, CHR 0x84, CHR 0x20] @ name @
     [CHR 0x20, CHR 0xE7, CHR 0x9A, CHR 0x84, CHR 0xE8, CHR 0xAF, CHR 0x81, CHR 0xE4,
        CHR 0xB9, CHR 0xA6, CHR 0xE7, CHR 0x9B, CHR 0x91, CHR 0xE6, CHR 0x8E, CHR 0xA7,
        CHR 0xE5, CHR 0x8F, CHR 0x91, CHR 0xE7, CHR 0x8E, CHR 0xB0, CHR 0x20] @ Sprintf_d n @
     [CHR 0x20, CHR 0xE4, CHR 0xB8, CHR 0xAA, CHR 0xE9, CHR 0x97, CHR 0xAE, CHR 0xE9,
        CHR 0xA2, CHR 0x98, CHR 0x3A, CHR 0x0A] @ lines"

text \<open>The JSON envelope \<^verbatim>\<open>WxworkMsgTplInfo\<close> with the message in place of \<^verbatim>\<open>%s\<close>.\<close>

definition Sprintf_WxworkMsgTplInfo :: "string \<Rightarrow> string" where
  "Sprintf_WxworkMsgTplInfo msg =
     [CHR 0x0A, CHR 0x7B, CHR 0x0A, CHR 0x09, CHR 0x22, CHR 0x6D, CHR 0x73, CHR 0x67,
        CHR 0x74, CHR 0x79, CHR 0x70, CHR 0x65, CHR 0x22, CHR 0x3A, CHR 0x20, CHR 0x22,
        CHR 0x74, CHR 0x65, CHR 0x78, CHR 0x74, CHR 0x22, CHR 0x2C, CHR 0x0A, CHR 0x09,
        CHR 0x22, CHR 0x74, CHR 0x65, CHR 0x78, CHR 0x74, CHR 0x22, CHR 0x3A, CHR 0x20,
        CHR 0x7B, CHR 0x0A, CHR 0x09, CHR 0x09, CHR 0x22, CHR 0x63, CHR 0x6F, CHR 0x6E,
        CHR 0x74, CHR 0x65, CHR 0x6E, CHR 0x74, CHR 0x22, CHR 0x3A, CHR 0x20, CHR 0x22] @ msg @
     [CHR 0x22, CHR 0x0A, CHR 0x09, CHR 0x7D, CHR 0x0A, CHR 0x7D, CHR 0x0A]"

subsection \<open>Configuration, errors, the outside world\<close>

record WatchGroup =
  Name :: string
  WxworkToken :: string
  Interval :: int
  DayBeforeExpiration :: int
  Sites :: "string list"

record Config =
  Version :: int
  Groups :: "WatchGroup list"

text \<open>
  An \<^verbatim>\<open>error\<close> is either one a library call returned (\<open>LibError\<close>, with its text) or one this
  program made with \<^verbatim>\<open>fmt.Errorf\<close>. Of a certificate only \<^verbatim>\<open>NotAfter\<close> is read; of
  \<^verbatim>\<open>slog.Level\<close> only the two levels \<^verbatim>\<open>main\<close> passes on.
\<close>

datatype error = LibError string | Errorf string

datatype Level = LevelInfo | LevelWarn

record Certificate =
  NotAfter :: Time

text \<open>
  What the program passes to the libraries that reach the network. \<^verbatim>\<open>tls.Dial(network, addr,
  config)\<close> is \<^verbatim>\<open>tls.DialWithDialer(new(net.Dialer), network, addr, config)\<close> in crypto/tls: the
  dialer is the zero \<^verbatim>\<open>net.Dialer\<close>, whose \<^verbatim>\<open>Timeout\<close> of 0 means that no timeout is set.
  \<^verbatim>\<open>http.Client\<close> has a \<^verbatim>\<open>Timeout\<close> field of the same reading.
\<close>

record net_Dialer =
  Dialer_Timeout :: Duration

record tls_Config =
  InsecureSkipVerify :: bool

record http_Client =
  Client_Timeout :: Duration

definition Second :: Duration where
  "Second = 1000000000"

text \<open>
  The trace of the sweep: every reading of the clock, every TLS dial, every entry into
  \<^verbatim>\<open>SendWxwork\<close> (with the group's name, the message and the level) and every HTTP request that
  is handed to the client, in the order in which they happen.
\<close>

datatype event =
    Now
  | Dial net_Dialer string string tls_Config
  | Call_SendWxwork string string Level
  | Do http_Client string string

text \<open>
  The outside world answers as a function of the trace so far, so the same host may answer
  differently on a later dial. \<open>tls_peer\<close> is what the network and the peer do on a dial:
  the connection or the handshake fails, with the text of the error, or the server sends its
  Certificate message, with the chain it presents, which a server may leave empty.
  \<^verbatim>\<open>http.NewRequest\<close> may reject the URL; \<^verbatim>\<open>client.Do\<close> returns the text of its error or the
  status code and body of the response. \<open>Format_UTC\<close> is \<^verbatim>\<open>Format("2006-01-02")\<close> on the
  \<^verbatim>\<open>NotAfter\<close> of a certificate, \<open>Format_Local\<close> the same on a reading of \<^verbatim>\<open>time.Now()\<close>.
\<close>

record env =
  time_Now :: "event list \<Rightarrow> Time"
  tls_peer ::
    "event list \<Rightarrow> net_Dialer \<Rightarrow> string \<Rightarrow> string \<Rightarrow> tls_Config \<Rightarrow> string + Certificate list"
  http_NewRequest :: "string \<Rightarrow> string \<Rightarrow> string \<Rightarrow> string option"
  client_Do :: "event list \<Rightarrow> http_Client \<Rightarrow> string \<Rightarrow> string \<Rightarrow> string + int \<times> string"
  Format_UTC :: "Time \<Rightarrow> string"
  Format_Local :: "Time \<Rightarrow> string"

text \<open>
  The client side of crypto/tls does not complete a handshake in which the server presents no
  certificate: it fails with an error of its own (in TLS 1.3 with the text used here), so
  \<^verbatim>\<open>ConnectionState().PeerCertificates\<close> of a connection that \<^verbatim>\<open>tls.Dial\<close> returned is never
  empty. With \<^verbatim>\<open>InsecureSkipVerify\<close> the chain is not verified any further.
\<close>

definition tls_DialWithDialer ::
  "env \<Rightarrow> event list \<Rightarrow> net_Dialer \<Rightarrow> string \<Rightarrow> string \<Rightarrow> tls_Config
     \<Rightarrow> string + Certificate list" where
  "tls_DialWithDialer E tr dialer network addr config =
     (case tls_peer E tr dialer network addr config of
        Inl err \<Rightarrow> Inl err
      | Inr certificates \<Rightarrow>
          if length certificates = 0 then Inl ''tls: received empty certificates message''
          else Inr certificates)"

definition tls_Dial ::
  "env \<Rightarrow> event list \<Rightarrow> string \<Rightarrow> string \<Rightarrow> tls_Config \<Rightarrow> (string + Certificate list) \<times> event list" where
  "tls_Dial E tr network addr config =
     (let dialer = \<lparr>Dialer_Timeout = 0\<rparr>
      in (tls_DialWithDialer E tr dialer network addr config,
          tr @ [Dial dialer network addr config]))"

subsection \<open>GetExpirationDate (lines 135 to 152)\<close>

text \<open>
  The result is the error or the expiry; the zero \<^verbatim>\<open>time.Time\<close> that accompanies an error is
  dropped, as the caller never reads it. The deferred \<^verbatim>\<open>conn.Close()\<close> is not traced.
\<close>

definition GetExpirationDate :: "env \<Rightarrow> string \<Rightarrow> event list \<Rightarrow> (error + Time) \<times> event list" where
  "GetExpirationDate E host tr =
     (let host' = (if CHR '':'' \<notin> set host then host @ '':443'' else host)
      in case tls_Dial E tr ''tcp'' host' \<lparr>InsecureSkipVerify = True\<rparr> of
           (Inl err, tr') \<Rightarrow> (Inl (LibError err), tr')
         | (Inr certs, tr') \<Rightarrow>
             if length certs = 0 then (Inl (Errorf ''no certificates found''), tr')
             else (Inr (NotAfter (certs ! 0)), tr'))"

subsection \<open>SendWxwork (lines 43 to 69)\<close>

definition SendWxwork ::
  "env \<Rightarrow> WatchGroup \<Rightarrow> string \<Rightarrow> Level \<Rightarrow> event list \<Rightarrow> error option \<times> event list" where
  "SendWxwork E g msg level tr0 =
     (let tr = tr0 @ [Call_SendWxwork (Name g) msg level];
          payload = Sprintf_WxworkMsgTplInfo msg
      in if WxworkToken g = [] then (None, tr)
         else
           let url = ''https://qyapi.weixin.qq.com/cgi-bin/webhook/send?key='' @ WxworkToken g
           in case http_NewRequest E ''POST'' url payload of
                Some err \<Rightarrow> (Some (LibError err), tr)
              | None \<Rightarrow>
                  let client = \<lparr>Client_Timeout = 10 * Second\<rparr>;
                      tr' = tr @ [Do client url payload]
                  in case client_Do E tr client url payload of
                       Inl err \<Rightarrow> (Some (LibError err), tr')
                     | Inr (StatusCode, body) \<Rightarrow>
                         if StatusCode \<noteq> 200
                         then (Some (Errorf (''wxwork notification failed with status code: ''
                                             @ Sprintf_d StatusCode)), tr')
                         else (None, tr'))"

subsection \<open>The loops of main (lines 103 to 132)\<close>

text \<open>
  \<open>main_site\<close> is the body of the inner loop (lines 108 to 121) on the pair of the alerts so far
  and the trace; \<open>main_sites\<close> is the inner loop; \<open>main_group\<close> is the body of the outer loop
  (lines 104 to 131), which ignores what \<^verbatim>\<open>SendWxwork\<close> returns; \<open>main_groups\<close> is the outer
  loop and \<open>main_loop\<close> starts it on the groups of the configuration.
\<close>

definition main_site ::
  "env \<Rightarrow> WatchGroup \<Rightarrow> Time \<Rightarrow> string \<Rightarrow> string list \<times> event list \<Rightarrow> string list \<times> event list" where
  "main_site E grp today site st =
     (case st of (alerts, tr) \<Rightarrow>
        (case GetExpirationDate E site tr of
           (Inl err, tr') \<Rightarrow> (alerts @ [Sprintf_check_failed site], tr')
         | (Inr expire, tr') \<Rightarrow>
             let days = daysLeft expire today
             in if days \<le> DayBeforeExpiration grp \<and> days \<ge> 0
                then (alerts @ [Sprintf_expiring site days (Format_UTC E expire)], tr')
                else if days < 0
                then (alerts @ [Sprintf_expired site (Format_UTC E expire)], tr')
                else (alerts, tr')))"

fun main_sites ::
  "env \<Rightarrow> WatchGroup \<Rightarrow> Time \<Rightarrow> string list \<Rightarrow> string list \<times> event list \<Rightarrow> string list \<times> event list" where
  "main_sites E grp today [] st = st"
| "main_sites E grp today (site # sites) st =
     main_sites E grp today sites (main_site E grp today site st)"

definition main_group :: "env \<Rightarrow> WatchGroup \<Rightarrow> event list \<Rightarrow> event list" where
  "main_group E grp tr0 =
     (let today = time_Now E tr0;
          tr1 = tr0 @ [Now]
      in case main_sites E grp today (Sites grp) ([], tr1) of
           (alerts, tr2) \<Rightarrow>
             let date = Format_Local E (time_Now E tr2);
                 tr3 = tr2 @ [Now]
             in if int (length alerts) \<le> 0
                then snd (SendWxwork E grp
                            (Sprintf_all_clear date (Name grp) (int (length (Sites grp))))
                            LevelInfo tr3)
                else snd (SendWxwork E grp
                            (Sprintf_problems date (Name grp) (int (length alerts))
                               (Join alerts [CHR 0x0A]))
                            LevelWarn tr3))"

fun main_groups :: "env \<Rightarrow> WatchGroup list \<Rightarrow> event list \<Rightarrow> event list" where
  "main_groups E [] tr = tr"
| "main_groups E (grp # grps) tr = main_groups E grps (main_group E grp tr)"

definition main_loop :: "env \<Rightarrow> Config \<Rightarrow> event list" where
  "main_loop E config = main_groups E (Groups config) []"

subsection \<open>The vocabulary of the specification\<close>

text \<open>
  The specification classifies every probe result: a failed probe is \<open>Unreachable\<close>; a
  successful one with \<open>d\<close> days left is \<open>Expired d\<close> when \<open>d < 0\<close>, \<open>ExpiringSoon d\<close> when
  \<open>0 \<le> d \<le> redline\<close>, and \<open>Healthy\<close> when \<open>d > redline\<close>. \<open>classify\<close> follows these words (the
  program has no such type), \<open>probe_results\<close> lists what the probes of a run of the inner loop
  return, in the order of the sites, and \<open>alert_line\<close> is the line the specification gives to a
  classified site. \<open>spec_daysLeft\<close> is the day count in the words of the specification: the hours
  between the expiry and now, divided by 24, the fraction dropped toward zero.
\<close>

datatype Classification = Healthy | ExpiringSoon int | Expired int | Unreachable

definition classify :: "int \<Rightarrow> Time \<Rightarrow> error + Time \<Rightarrow> Classification" where
  "classify redline now r =
     (case r of
        Inl err \<Rightarrow> Unreachable
      | Inr expire \<Rightarrow>
          let d = daysLeft expire now
          in if d < 0 then Expired d
             else if 0 \<le> d \<and> d \<le> redline then ExpiringSoon d
             else Healthy)"

fun probe_results :: "env \<Rightarrow> string list \<Rightarrow> event list \<Rightarrow> (error + Time) list" where
  "probe_results E [] tr = []"
| "probe_results E (site # sites) tr =
     fst (GetExpirationDate E site tr) # probe_results E sites (snd (GetExpirationDate E site tr))"

definition alert_line :: "env \<Rightarrow> int \<Rightarrow> Time \<Rightarrow> string \<times> (error + Time) \<Rightarrow> string option" where
  "alert_line E redline now sr =
     (case sr of (site, r) \<Rightarrow>
       (case classify redline now r of
          Healthy \<Rightarrow> None
        | ExpiringSoon d \<Rightarrow> Some (Sprintf_expiring site d (Format_UTC E (projr r)))
        | Expired d \<Rightarrow> Some (Sprintf_expired site (Format_UTC E (projr r)))
        | Unreachable \<Rightarrow> Some (Sprintf_check_failed site)))"


definition host_port :: "string \<Rightarrow> string" where
  "host_port host = (if CHR '':'' \<notin> set host then host @ '':443'' else host)"

definition calls :: "event list \<Rightarrow> (string \<times> string \<times> Level) list" where
  "calls tr = concat (map (\<lambda>e. case e of Call_SendWxwork n m l \<Rightarrow> [(n, m, l)] | _ \<Rightarrow> []) tr)"

definition dials :: "event list \<Rightarrow> string list" where
  "dials tr = concat (map (\<lambda>e. case e of Dial d n a c \<Rightarrow> [a] | _ \<Rightarrow> []) tr)"

definition requests :: "event list \<Rightarrow> (string \<times> string) list" where
  "requests tr = concat (map (\<lambda>e. case e of Do c u p \<Rightarrow> [(u, p)] | _ \<Rightarrow> []) tr)"


text \<open>The day count of line 115 as a function of the duration alone.\<close>

definition Duration_days :: "Duration \<Rightarrow> int" where
  "Duration_days d = go_int (f64_round (Hours d / 24))"

text \<open>
  For a group evaluated from trace \<open>tr0\<close>: the trace after the dials of the inner loop, the
  results of its probes, their classification against the group's redline and the reading of
  the clock taken at \<open>tr0\<close>, and the alert lines of the sites that are not healthy, in the
  order of the site list.
\<close>

definition dial_event :: "string \<Rightarrow> event" where
  "dial_event site = Dial \<lparr>Dialer_Timeout = 0\<rparr> ''tcp'' (host_port site) \<lparr>InsecureSkipVerify = True\<rparr>"

definition group_results :: "env \<Rightarrow> WatchGroup \<Rightarrow> event list \<Rightarrow> (error + Time) list" where
  "group_results E grp tr0 = probe_results E (Sites grp) (tr0 @ [Now])"

definition group_classes :: "env \<Rightarrow> WatchGroup \<Rightarrow> event list \<Rightarrow> Classification list" where
  "group_classes E grp tr0 =
     map (classify (DayBeforeExpiration grp) (time_Now E tr0)) (group_results E grp tr0)"

definition group_alerts :: "env \<Rightarrow> WatchGroup \<Rightarrow> event list \<Rightarrow> string list" where
  "group_alerts E grp tr0 =
     List.map_filter (alert_line E (DayBeforeExpiration grp) (time_Now E tr0))
       (zip (Sites grp) (group_results E grp tr0))"

definition group_date :: "env \<Rightarrow> WatchGroup \<Rightarrow> event list \<Rightarrow> string" where
  "group_date E grp tr0 =
     Format_Local E (time_Now E (tr0 @ [Now] @ map dial_event (Sites grp)))"

subsection \<open>A concrete sweep\<close>

text \<open>
  The calendar date of an instant in UTC, for instants counted in nanoseconds since
  1970-01-01 00:00 UTC and the years 0 to 9999: \<open>civil_from_days\<close> turns a count of days since
  1970-01-01 into year, month and day of the proleptic Gregorian calendar, and
  \<open>Format_2006_01_02\<close> prints them as \<^verbatim>\<open>Format("2006-01-02")\<close> does.
\<close>

definition civil_from_days :: "int \<Rightarrow> int \<times> int \<times> int" where
  "civil_from_days z0 =
     (let z = z0 + 719468;
          era = z div 146097;
          doe = z mod 146097;
          yoe = (doe - doe div 1460 + doe div 36524 - doe div 146096) div 365;
          doy = doe - (365 * yoe + yoe div 4 - yoe div 100);
          mp = (5 * doy + 2) div 153;
          d = doy - (153 * mp + 2) div 5 + 1;
          m = (if mp < 10 then mp + 3 else mp - 9);
          y = yoe + era * 400 + (if m \<le> 2 then 1 else 0)
      in (y, m, d))"

definition zero_pad :: "nat \<Rightarrow> string \<Rightarrow> string" where
  "zero_pad w s = replicate (w - length s) (CHR ''0'') @ s"

definition Format_2006_01_02 :: "Time \<Rightarrow> string" where
  "Format_2006_01_02 t =
     (case civil_from_days (t div 86400000000000) of
        (y, m, d) \<Rightarrow>
          zero_pad 4 (Sprintf_d y) @ ''-'' @ zero_pad 2 (Sprintf_d m) @ ''-''
          @ zero_pad 2 (Sprintf_d d))"

text \<open>
  The scenario of the specification: it is 2024-01-01 00:00 UTC on a machine whose zone is
  UTC; \<^verbatim>\<open>a.example\<close> presents a certificate that expires on 2024-01-05, the server of
  \<^verbatim>\<open>c.example\<close> presents no certificate, \<^verbatim>\<open>d.example\<close> presents a certificate that expired an
  hour ago (on 2023-12-31 at 23:00), every other dial is refused; the webhook answers 200.
  Group \<^verbatim>\<open>prod\<close> has redline 7, group \<^verbatim>\<open>calm\<close> redline 3 and no token, group \<^verbatim>\<open>late\<close> watches
  the expired site.
\<close>

definition scenario_env :: env where
  "scenario_env =
     \<lparr>time_Now = (\<lambda>tr. 1704067200000000000),
      tls_peer = (\<lambda>tr dialer network addr config.
         if addr = ''a.example:443'' then Inr [\<lparr>NotAfter = 1704412800000000000\<rparr>]
         else if addr = ''c.example:443'' then Inr []
         else if addr = ''d.example:443'' then Inr [\<lparr>NotAfter = 1704063600000000000\<rparr>]
         else Inl ''connection refused''),
      http_NewRequest = (\<lambda>method url body. None),
      client_Do = (\<lambda>tr client url body. Inr (200, ''ok'')),
      Format_UTC = Format_2006_01_02,
      Format_Local = Format_2006_01_02\<rparr>"

definition prod_group :: WatchGroup where
  "prod_group =
     \<lparr>Name = ''prod'', WxworkToken = ''key'', Interval = 60, DayBeforeExpiration = 7,
      Sites = [''a.example'', ''b.example'']\<rparr>"

definition calm_group :: WatchGroup where
  "calm_group =
     \<lparr>Name = ''calm'', WxworkToken = [], Interval = 60, DayBeforeExpiration = 3,
      Sites = [''a.example'']\<rparr>"

definition late_group :: WatchGroup where
  "late_group =
     \<lparr>Name = ''late'', WxworkToken = ''key'', Interval = 60, DayBeforeExpiration = 7,
      Sites = [''d.example'']\<rparr>"

definition idle_group :: WatchGroup where
  "idle_group =
     \<lparr>Name = ''idle'', WxworkToken = ''key'', Interval = 60, DayBeforeExpiration = 7, Sites = []\<rparr>"

definition scenario_config :: Config where
  "scenario_config = \<lparr>Version = 1, Groups = [prod_group, calm_group, idle_group]\<rparr>"


section \<open>Properties\<close>

subsection \<open>Rounding to binary64 is monotone and exact on short dyadic numbers\<close>

lemma bits_Len_bounds: "0 < n \<Longrightarrow> 2 ^ (bits_Len n - 1) \<le> n \<and> n < 2 ^ bits_Len n"
proof (induction n rule: bits_Len.induct)
  case (1 n)
  have len: "bits_Len n = Suc (bits_Len (n div 2))"
    using "1.prems" by (subst bits_Len.simps) simp
  show ?case
  proof (cases "n div 2 \<le> 0")
    case True
    with "1.prems" have n1: "n = 1" by linarith
    have "bits_Len (n div 2) = 0" using True by (subst bits_Len.simps) simp
    then have "bits_Len n = 1" by (simp add: len)
    with n1 show ?thesis by simp
  next
    case False
    then have pos: "0 < n div 2" by simp
    from "1.IH" "1.prems" pos
    have ih: "2 ^ (bits_Len (n div 2) - 1) \<le> n div 2" "n div 2 < 2 ^ bits_Len (n div 2)"
      by simp_all
    have bpos: "0 < bits_Len (n div 2)"
      using pos by (subst bits_Len.simps) simp
    then obtain k where k: "bits_Len (n div 2) = Suc k" by (cases "bits_Len (n div 2)") auto
    from ih k have "2 * 2 ^ k \<le> 2 * (n div 2)" by simp
    also have "\<dots> \<le> n" by simp
    finally have lo: "2 ^ (bits_Len n - 1) \<le> n" by (simp add: len k)
    from ih(2) have "n div 2 + 1 \<le> 2 ^ bits_Len (n div 2)" by simp
    then have "2 * (n div 2) + 2 \<le> 2 * 2 ^ bits_Len (n div 2)" by simp
    moreover have "n < 2 * (n div 2) + 2" by linarith
    ultimately have hi: "n < 2 ^ bits_Len n" by (simp add: len)
    from lo hi show ?thesis ..
  qed
qed

lemma bits_Len_pos: "0 < n \<Longrightarrow> 0 < bits_Len n"
  by (subst bits_Len.simps) simp

lemma powi_neg: "(2::rat) powi (- int k) = 1 / 2 ^ k"
  by (simp add: power_int_minus inverse_eq_divide)

lemma ilog2_bounds:
  assumes "0 < x"
  shows "2 powi (ilog2 x) \<le> x" and "x < 2 powi (ilog2 x + 1)"
proof -
  show "2 powi (ilog2 x) \<le> x"
  proof (cases "1 \<le> x")
    case True
    define n where "n = \<lfloor>x\<rfloor>"
    have npos: "0 < n" using True by (simp add: n_def)
    have "(2::rat) powi (int (bits_Len n) - 1) = 2 ^ (bits_Len n - 1)"
      using bits_Len_pos[OF npos] by (simp add: power_int_def nat_diff_distrib')
    also have "\<dots> = of_int (2 ^ (bits_Len n - 1))" by simp
    also have "\<dots> \<le> of_int n"
      using bits_Len_bounds[OF npos] by (simp only: of_int_le_iff)
    also have "\<dots> \<le> x" by (simp add: n_def)
    finally show ?thesis using True by (simp add: ilog2_def n_def)
  next
    case False
    define m where "m = \<lceil>1 / x\<rceil> - 1"
    have "1 < 1 / x" using False assms by simp
    then have c2: "2 \<le> \<lceil>1 / x\<rceil>" by linarith
    then have mpos: "0 < m" by (simp add: m_def)
    have "m + 1 \<le> 2 ^ bits_Len m" using bits_Len_bounds[OF mpos] by simp
    then have "(of_int (m + 1) :: rat) \<le> of_int (2 ^ bits_Len m)" by (simp only: of_int_le_iff)
    moreover have "1 / x \<le> of_int (m + 1)" by (simp add: m_def)
    ultimately have "1 / x \<le> 2 ^ bits_Len m" by simp
    then have "1 \<le> 2 ^ bits_Len m * x" using assms by (simp add: pos_divide_le_eq)
    then have "1 / 2 ^ bits_Len m \<le> x" by (simp add: pos_divide_le_eq mult.commute)
    moreover have "ilog2 x = - int (bits_Len m)" using False by (simp add: ilog2_def m_def)
    ultimately show ?thesis by (simp only: powi_neg)
  qed
  show "x < 2 powi (ilog2 x + 1)"
  proof (cases "1 \<le> x")
    case True
    define n where "n = \<lfloor>x\<rfloor>"
    have npos: "0 < n" using True by (simp add: n_def)
    have "n + 1 \<le> 2 ^ bits_Len n" using bits_Len_bounds[OF npos] by simp
    then have "(of_int (n + 1) :: rat) \<le> of_int (2 ^ bits_Len n)" by (simp only: of_int_le_iff)
    moreover have "x < of_int (n + 1)" unfolding n_def by linarith
    ultimately have "x < 2 ^ bits_Len n" by simp
    then show ?thesis using True by (simp add: ilog2_def n_def power_int_def)
  next
    case False
    define m where "m = \<lceil>1 / x\<rceil> - 1"
    have "1 < 1 / x" using False assms by simp
    then have c2: "2 \<le> \<lceil>1 / x\<rceil>" by linarith
    then have mpos: "0 < m" by (simp add: m_def)
    obtain k where k: "bits_Len m = Suc k" using bits_Len_pos[OF mpos] by (cases "bits_Len m") auto
    have "2 ^ k \<le> m" using bits_Len_bounds[OF mpos] k by simp
    then have "(of_int (2 ^ k) :: rat) \<le> of_int m" by (simp only: of_int_le_iff)
    then have "(2::rat) ^ k \<le> of_int m" by simp
    moreover have "of_int m < 1 / x" unfolding m_def by linarith
    ultimately have "2 ^ k < 1 / x" by linarith
    then have "2 ^ k * x < 1" using assms by (simp add: pos_less_divide_eq)
    then have "x < 1 / 2 ^ k" by (simp add: pos_less_divide_eq mult.commute)
    moreover have "ilog2 x + 1 = - int k"
    proof -
      have "ilog2 x = - int (bits_Len m)" using False by (simp add: ilog2_def m_def)
      then show ?thesis by (simp add: k)
    qed
    ultimately show ?thesis by (simp only: powi_neg)
  qed
qed

lemma rne_lower: "\<lfloor>q\<rfloor> \<le> rne q"
  by (simp add: rne_def Let_def)

lemma rne_upper: "rne q \<le> \<lfloor>q\<rfloor> + 1"
  by (simp add: rne_def Let_def)

lemma rne_of_int: "rne (of_int n) = n"
  by (simp add: rne_def Let_def)

lemma rne_mono:
  assumes "q \<le> q'"
  shows "rne q \<le> rne q'"
proof (cases "\<lfloor>q\<rfloor> = \<lfloor>q'\<rfloor>")
  case True
  with assms show ?thesis by (auto simp: rne_def Let_def)
next
  case False
  moreover have "\<lfloor>q\<rfloor> \<le> \<lfloor>q'\<rfloor>" using assms by (rule floor_mono)
  ultimately have "\<lfloor>q\<rfloor> + 1 \<le> \<lfloor>q'\<rfloor>" by simp
  with rne_upper[of q] rne_lower[of q'] show ?thesis by linarith
qed

lemma rne_le_int: "q \<le> of_int n \<Longrightarrow> rne q \<le> n"
  using rne_mono[of q "of_int n"] by (simp add: rne_of_int)

lemma rne_ge_int: "of_int n \<le> q \<Longrightarrow> n \<le> rne q"
  using rne_mono[of "of_int n" q] by (simp add: rne_of_int)

lemma f64_round_alt:
  "f64_round x = (if x = 0 then 0 else sgn x * of_int (rne (\<bar>x\<bar> / 2 powi (f64_exp x - 52))) * 2 powi (f64_exp x - 52))"
  by (simp add: f64_round_def Let_def)

lemma f64_round_minus: "f64_round (- x) = - f64_round x"
  by (simp add: f64_round_alt f64_exp_def)

lemma f64_round_pos:
  "0 < x \<Longrightarrow> f64_round x = of_int (rne (x / 2 powi (f64_exp x - 52))) * 2 powi (f64_exp x - 52)"
  by (simp add: f64_round_alt)

lemma powi_pos: "0 < (2::rat) powi k"
  by (simp add: zero_less_power_int)

lemma powi_mono: "a \<le> b \<Longrightarrow> (2::rat) powi a \<le> 2 powi b"
  by (rule power_int_increasing) simp_all

lemma powi_less_cancel: "(2::rat) powi a < 2 powi b \<Longrightarrow> a < b"
  using powi_mono[of b a] by (cases "a < b") auto

lemma powi_add: "(2::rat) powi (a + b) = 2 powi a * 2 powi b"
  by (simp add: power_int_add)

lemma powi_diff: "(2::rat) powi (a - b) = 2 powi a / 2 powi b"
  by (simp add: power_int_diff)

lemma ilog2_mono:
  assumes "0 < x" "x \<le> y"
  shows "ilog2 x \<le> ilog2 y"
proof -
  have "2 powi (ilog2 x) \<le> x" using assms(1) by (rule ilog2_bounds)
  also have "x \<le> y" by fact
  also have "y < 2 powi (ilog2 y + 1)" using assms by (intro ilog2_bounds) simp
  finally have "ilog2 x < ilog2 y + 1" by (rule powi_less_cancel)
  then show ?thesis by simp
qed

lemma f64_exp_mono: "0 < x \<Longrightarrow> x \<le> y \<Longrightarrow> f64_exp x \<le> f64_exp y"
  using ilog2_mono[of x y] by (simp add: f64_exp_def)

lemma mant_lt:
  assumes "0 < x"
  shows "x / 2 powi (f64_exp x - 52) < 2 ^ 53"
proof -
  have "x < 2 powi (ilog2 x + 1)" using assms by (rule ilog2_bounds)
  also have "\<dots> \<le> 2 powi (f64_exp x + 1)"
    using assms by (intro powi_mono) (simp add: f64_exp_def)
  also have "\<dots> = 2 ^ 53 * 2 powi (f64_exp x - 52)"
  proof -
    have "f64_exp x + 1 = 53 + (f64_exp x - 52)" by simp
    then have "(2::rat) powi (f64_exp x + 1) = 2 powi 53 * 2 powi (f64_exp x - 52)"
      by (simp only: powi_add)
    then show ?thesis by simp
  qed
  finally show ?thesis using powi_pos[of "f64_exp x - 52"] by (simp add: pos_divide_less_eq)
qed

lemma mant_ge:
  assumes "0 < x" "- 1022 \<le> ilog2 x"
  shows "2 ^ 52 \<le> x / 2 powi (f64_exp x - 52)"
proof -
  have e: "f64_exp x = ilog2 x" using assms by (simp add: f64_exp_def)
  have "f64_exp x = 52 + (f64_exp x - 52)" by simp
  then have "(2::rat) powi (f64_exp x) = 2 powi 52 * 2 powi (f64_exp x - 52)"
    by (metis powi_add)
  then have "2 ^ 52 * 2 powi (f64_exp x - 52) = (2::rat) powi (ilog2 x)" by (simp add: e)
  also have "\<dots> \<le> x" using assms(1) by (rule ilog2_bounds)
  finally show ?thesis using powi_pos[of "f64_exp x - 52"] by (simp add: pos_le_divide_eq)
qed

lemma f64_round_nonneg: "0 \<le> x \<Longrightarrow> 0 \<le> f64_round x"
proof (cases "x = 0")
  case True
  then show ?thesis by (simp add: f64_round_def)
next
  case False
  assume "0 \<le> x"
  with False have pos: "0 < x" by simp
  have "0 \<le> x / 2 powi (f64_exp x - 52)" using pos powi_pos[of "f64_exp x - 52"] by simp
  then have "0 \<le> rne (x / 2 powi (f64_exp x - 52))" using rne_ge_int[of 0] by simp
  then show ?thesis using powi_pos[of "f64_exp x - 52"] by (simp add: f64_round_pos[OF pos])
qed

lemma f64_round_mono_pos:
  assumes "0 < x" "x \<le> y"
  shows "f64_round x \<le> f64_round y"
proof -
  have ypos: "0 < y" using assms by simp
  let ?ux = "2 powi (f64_exp x - 52) :: rat" and ?uy = "2 powi (f64_exp y - 52) :: rat"
  have le: "f64_exp x \<le> f64_exp y" using assms by (rule f64_exp_mono)
  show ?thesis
  proof (cases "f64_exp x = f64_exp y")
    case True
    have "x / ?ux \<le> y / ?ux" using assms(2) powi_pos[of "f64_exp x - 52"] by (simp add: divide_right_mono)
    then have "rne (x / ?ux) \<le> rne (y / ?ux)" by (rule rne_mono)
    then have "of_int (rne (x / ?ux)) * ?ux \<le> of_int (rne (y / ?ux)) * ?ux"
      using powi_pos[of "f64_exp x - 52"] by simp
    then show ?thesis by (simp add: f64_round_pos[OF assms(1)] f64_round_pos[OF ypos] True)
  next
    case False
    with le have lt: "f64_exp x + 1 \<le> f64_exp y" by simp
    have "- 1022 \<le> f64_exp x" by (simp add: f64_exp_def)
    with lt have ey: "f64_exp y = ilog2 y" "- 1022 \<le> ilog2 y" using ypos by (auto simp: f64_exp_def)
    have "rne (x / ?ux) \<le> 2 ^ 53"
      using mant_lt[OF assms(1)] rne_le_int[of "x / ?ux" "2 ^ 53"] by simp
    then have "(of_int (rne (x / ?ux)) :: rat) \<le> 2 ^ 53"
      by (metis of_int_le_iff of_int_numeral of_int_power)
    then have "of_int (rne (x / ?ux)) * ?ux \<le> 2 ^ 53 * ?ux"
      using powi_pos[of "f64_exp x - 52"] by simp
    also have "2 ^ 53 * ?ux = 2 powi (f64_exp x + 1)"
    proof -
      have "f64_exp x + 1 = 53 + (f64_exp x - 52)" by simp
      then have "(2::rat) powi (f64_exp x + 1) = 2 powi 53 * 2 powi (f64_exp x - 52)"
        by (simp only: powi_add)
      then show ?thesis by simp
    qed
    also have "\<dots> \<le> 2 powi (f64_exp y)" using lt by (rule powi_mono)
    also have "\<dots> = 2 ^ 52 * ?uy"
    proof -
      have "f64_exp y = 52 + (f64_exp y - 52)" by simp
      then have "(2::rat) powi (f64_exp y) = 2 powi 52 * 2 powi (f64_exp y - 52)"
        by (metis powi_add)
      then show ?thesis by simp
    qed
    also have "\<dots> \<le> of_int (rne (y / ?uy)) * ?uy"
    proof -
      have "2 ^ 52 \<le> rne (y / ?uy)"
        using mant_ge[OF ypos ey(2)] rne_ge_int[of "2 ^ 52" "y / ?uy"] by simp
      then have "(2::rat) ^ 52 \<le> of_int (rne (y / ?uy))"
        by (metis of_int_le_iff of_int_numeral of_int_power)
      then show ?thesis using powi_pos[of "f64_exp y - 52"] by simp
    qed
    finally show ?thesis by (simp add: f64_round_pos[OF assms(1)] f64_round_pos[OF ypos])
  qed
qed

lemma f64_round_mono:
  assumes "x \<le> y"
  shows "f64_round x \<le> f64_round y"
proof -
  consider "0 < x" | "x \<le> 0" "0 \<le> y" | "y < 0" by linarith
  then show ?thesis
  proof cases
    case 1
    then show ?thesis using assms by (rule f64_round_mono_pos)
  next
    case 2
    have "f64_round x \<le> 0" using f64_round_nonneg[of "- x"] 2(1) by (simp add: f64_round_minus)
    also have "0 \<le> f64_round y" using 2(2) by (rule f64_round_nonneg)
    finally show ?thesis .
  next
    case 3
    then have "0 < - y" "- y \<le> - x" using assms by simp_all
    then have "f64_round (- y) \<le> f64_round (- x)" by (rule f64_round_mono_pos)
    then show ?thesis by (simp add: f64_round_minus)
  qed
qed

lemma f64_round_exact_pos:
  assumes "0 < m" "m < 2 ^ 53" "- 1074 \<le> k"
  shows "f64_round (of_int m * 2 powi k) = of_int m * 2 powi k"
proof -
  let ?x = "of_int m * 2 powi k :: rat"
  have xpos: "0 < ?x" using assms(1) powi_pos[of k] by simp
  have "2 powi (ilog2 ?x) \<le> ?x" using xpos by (rule ilog2_bounds)
  also have "?x < 2 ^ 53 * 2 powi k"
  proof -
    have "(of_int m :: rat) < 2 ^ 53" using assms(2) by (metis of_int_less_iff of_int_numeral of_int_power)
    then show ?thesis using powi_pos[of k] by simp
  qed
  also have "2 ^ 53 * 2 powi k = (2::rat) powi (53 + k)" by (simp add: powi_add)
  finally have "ilog2 ?x < 53 + k" by (rule powi_less_cancel)
  then have e: "f64_exp ?x \<le> 52 + k" using assms(3) xpos by (simp add: f64_exp_def)
  define u :: rat where "u = 2 powi (f64_exp ?x - 52)"
  define j where "j = nat (k + 52 - f64_exp ?x)"
  have upos: "0 < u" by (simp add: u_def powi_pos)
  have j: "k = int j + (f64_exp ?x - 52)" using e by (simp add: j_def)
  have "(2::rat) powi k = 2 powi (int j) * u"
    unfolding u_def by (subst j) (simp only: powi_add)
  then have pk: "?x = of_int (m * 2 ^ j) * u" by simp
  have "?x / u = of_int (m * 2 ^ j)" using upos by (simp only: pk) simp
  then have "rne (?x / u) = m * 2 ^ j" by (simp only: rne_of_int)
  then have "f64_round ?x = of_int (m * 2 ^ j) * u"
    by (simp only: f64_round_pos[OF xpos] u_def)
  then show ?thesis by (simp only: pk)
qed

lemma f64_round_exact:
  assumes "\<bar>m\<bar> < 2 ^ 53" "- 1074 \<le> k"
  shows "f64_round (of_int m * 2 powi k) = of_int m * 2 powi k"
proof -
  consider "m = 0" | "0 < m" | "m < 0" by linarith
  then show ?thesis
  proof cases
    case 1
    then show ?thesis by (simp add: f64_round_def)
  next
    case 2
    then show ?thesis using assms by (intro f64_round_exact_pos) simp_all
  next
    case 3
    then have "f64_round (of_int (- m) * 2 powi k) = of_int (- m) * 2 powi k"
      using assms by (intro f64_round_exact_pos) simp_all
    then have "f64_round (- (of_int m * 2 powi k)) = - (of_int m * 2 powi k)" by simp
    then show ?thesis by (simp add: f64_round_minus)
  qed
qed

lemma f64_round_of_int: "\<bar>m\<bar> < 2 ^ 53 \<Longrightarrow> f64_round (of_int m) = of_int m"
  using f64_round_exact[of m 0] by simp


subsection \<open>Hours and days of a duration\<close>

lemma int_quo_nonneg: "0 \<le> a \<Longrightarrow> int_quo a Hour = a div Hour"
  by (cases "a = 0") (simp_all add: int_quo_def Hour_def)

lemma int_rem_nonneg: "0 \<le> a \<Longrightarrow> int_rem a Hour = a mod Hour"
  by (simp add: int_rem_def int_quo_nonneg minus_mult_div_eq_mod)

lemma int_quo_minus: "int_quo (- a) b = - int_quo a b"
  by (simp add: int_quo_def sgn_minus)

lemma int_rem_minus: "int_rem (- a) b = - int_rem a b"
  by (simp add: int_rem_def int_quo_minus)

lemma float64_minus: "float64 (- n) = - float64 n"
  by (simp add: float64_def f64_round_minus)

lemma Hours_minus: "Hours (- d) = - Hours d"
proof -
  define a where "a = float64 (int_quo d Hour)"
  define b where "b = float64 (int_rem d Hour) / 3600000000000"
  have 1: "Hours (- d) = f64_round (- a + f64_round (- b))"
    by (simp add: Hours_def Let_def int_quo_minus int_rem_minus float64_minus a_def b_def)
  have 2: "- a + f64_round (- b) = - (a + f64_round b)"
    by (simp add: f64_round_minus)
  have "Hours (- d) = f64_round (- (a + f64_round b))" by (simp only: 1 2)
  also have "\<dots> = - f64_round (a + f64_round b)" by (rule f64_round_minus)
  also have "\<dots> = - Hours d" by (simp add: Hours_def Let_def a_def b_def)
  finally show ?thesis .
qed

lemma go_int_minus: "go_int (- f) = - go_int f"
  by (cases "f = 0") (auto simp: go_int_def ceiling_def)

lemma Duration_days_minus: "Duration_days (- d) = - Duration_days d"
  by (simp add: Duration_days_def Hours_minus f64_round_minus go_int_minus)

lemma daysLeft_days: "daysLeft expire today = Duration_days (Sub expire today)"
  by (simp add: daysLeft_def Duration_days_def)

lemma f64_round_dyadic:
  assumes "0 \<le> n" "n < 2 ^ 53" "k \<le> 1074"
  shows "f64_round (of_int n / 2 ^ k) = of_int n / 2 ^ k"
proof -
  have "f64_round (of_int n * 2 powi (- int k)) = of_int n * 2 powi (- int k)"
    using assms by (intro f64_round_exact) simp_all
  then show ?thesis by (simp add: powi_neg)
qed

lemma float64_exact: "\<bar>n\<bar> < 2 ^ 53 \<Longrightarrow> float64 n = of_int n"
  by (simp add: float64_def f64_round_of_int)

lemma Duration_days_window:
  fixes N d m :: int and k :: nat
  assumes N: "0 \<le> N"
    and lo: "N * (24 * Hour) \<le> d"
    and hi: "d + m \<le> (N + 1) * (24 * Hour)"
    and m: "Hour \<le> m * 2 ^ k"
    and r1: "24 * ((N + 1) * 2 ^ k) \<le> 2 ^ 53"
    and r2: "(N + 1) * 2 ^ (k + 5) \<le> 2 ^ 53"
  shows "Duration_days d = N"
proof -
  define hour where "hour = d div Hour"
  define nsec where "nsec = d mod Hour"
  define P :: int where "P = 2 ^ k"
  have p53: "(2::int) ^ 53 = 9007199254740992" by simp
  have Hpos: "0 < Hour" by (simp add: Hour_def)
  have Ppos: "1 \<le> P" by (simp add: P_def)
  define Q :: int where "Q = (N + 1) * P"
  have NP: "P \<le> Q" using mult_right_mono[of 1 "N + 1" P] N Ppos by (simp add: Q_def)
  have NP2: "N + 1 \<le> Q" using mult_left_mono[of 1 P "N + 1"] N Ppos by (simp add: Q_def)
  have r1': "24 * Q \<le> 9007199254740992" using r1 by (simp only: Q_def P_def p53)
  have kb: "k \<le> 1074"
  proof (rule ccontr)
    assume "\<not> k \<le> 1074"
    then have "(2::int) ^ 53 \<le> 2 ^ k" by (intro power_increasing) simp_all
    with r1' NP show False unfolding P_def p53 by linarith
  qed
  have mpos: "0 < m"
  proof (rule ccontr)
    assume "\<not> 0 < m"
    then have "m * 2 ^ k \<le> 0" by (simp add: mult_le_0_iff)
    with m Hpos show False by simp
  qed
  have d_eq: "d = hour * Hour + nsec" by (simp add: hour_def nsec_def)
  have nsec_bounds: "0 \<le> nsec" "nsec < Hour" using Hpos by (simp_all add: nsec_def)
  have lo': "(24 * N) * Hour \<le> d"
  proof -
    have "N * (24 * Hour) = (24 * N) * Hour" by simp
    with lo show ?thesis by linarith
  qed
  have hi': "d + m \<le> (24 * (N + 1)) * Hour"
  proof -
    have "(N + 1) * (24 * Hour) = (24 * (N + 1)) * Hour" by simp
    with hi show ?thesis by linarith
  qed
  have dnn: "0 \<le> d"
  proof -
    have "0 \<le> (24 * N) * Hour" using N Hpos by simp
    with lo' show ?thesis by linarith
  qed
  have hour_lo: "24 * N \<le> hour"
  proof -
    have "(24 * N) * Hour div Hour \<le> d div Hour" using lo' by (rule zdiv_mono1) (rule Hpos)
    then show ?thesis using Hpos by (simp add: hour_def)
  qed
  have hour_hi: "hour \<le> 24 * (N + 1) - 1"
  proof -
    from hi' mpos have "d < (24 * (N + 1)) * Hour" by linarith
    with d_eq nsec_bounds(1) have "hour * Hour < (24 * (N + 1)) * Hour" by linarith
    then have "hour < 24 * (N + 1)" using Hpos by (simp only: mult_less_cancel_right)
    then show ?thesis by simp
  qed
  have N1: "24 * N + 24 \<le> 9007199254740992" using r1' NP2 by simp
  have hh: "hour \<le> 24 * N + 23" using hour_hi by simp
  have hour_abs: "\<bar>hour\<bar> < 2 ^ 53" using hour_lo hh N N1 unfolding p53 by linarith
  have nsec_abs: "\<bar>nsec\<bar> < 2 ^ 53" using nsec_bounds by (simp add: Hour_def)
  have fh: "float64 hour = of_int hour" using hour_abs by (rule float64_exact)
  have fn: "float64 nsec = of_int nsec" using nsec_abs by (rule float64_exact)
  define frac where "frac = f64_round (of_int nsec / 3600000000000)"
  have Hours_eq: "Hours d = f64_round (of_int hour + frac)"
    using dnn by (simp add: Hours_def Let_def int_quo_nonneg int_rem_nonneg hour_def[symmetric]
        nsec_def[symmetric] fh fn frac_def)
  have frac0: "0 \<le> frac"
    unfolding frac_def using nsec_bounds(1) by (intro f64_round_nonneg) simp
  have frac1: "frac \<le> 1"
  proof -
    have "of_int nsec / 3600000000000 \<le> (1::rat)" using nsec_bounds by (simp add: Hour_def)
    then have "frac \<le> f64_round 1" unfolding frac_def by (rule f64_round_mono)
    also have "f64_round 1 = 1" using f64_round_of_int[of 1] by simp
    finally show ?thesis .
  qed
  have H_lo: "of_int (24 * N) \<le> Hours d"
  proof -
    have "(of_int (24 * N) :: rat) \<le> of_int hour" using hour_lo by (simp only: of_int_le_iff)
    with frac0 have "of_int (24 * N) \<le> of_int hour + frac" by linarith
    then have "f64_round (of_int (24 * N)) \<le> Hours d" unfolding Hours_eq by (rule f64_round_mono)
    moreover have "\<bar>24 * N\<bar> < 2 ^ 53" using N N1 unfolding p53 by linarith
    ultimately show ?thesis by (simp only: f64_round_of_int)
  qed
  have Q_lo: "of_int N \<le> f64_round (Hours d / 24)"
  proof -
    have "(of_int (24 * N) :: rat) = 24 * of_int N" by simp
    with H_lo have "of_int N \<le> Hours d / 24" by simp
    then have "f64_round (of_int N) \<le> f64_round (Hours d / 24)" by (rule f64_round_mono)
    moreover have "\<bar>N\<bar> < 2 ^ 53" using N N1 unfolding p53 by linarith
    ultimately show ?thesis by (simp only: f64_round_of_int)
  qed
  define B :: int where "B = 24 * Q - 1"
  define C :: int where "C = 32 * Q - 1"
  have Bb: "0 \<le> B" "B < 2 ^ 53" using r1' NP Ppos unfolding p53 B_def by linarith+
  have r2': "32 * Q \<le> 9007199254740992"
  proof -
    have "(N + 1) * 2 ^ (k + 5) = 32 * Q" by (simp add: Q_def P_def power_add)
    with r2 show ?thesis by (simp only: p53)
  qed
  have Cb: "0 \<le> C" "C < 2 ^ 53" using r2' NP Ppos unfolding p53 C_def by linarith+
  have Prat: "(of_int P :: rat) = 2 ^ k" by (simp add: P_def)
  have Ppos_rat: "0 < (2::rat) ^ k" by simp
  have s_hi: "of_int hour + frac \<le> of_int B / 2 ^ k"
  proof (cases "hour = 24 * (N + 1) - 1")
    case True
    define X where "X = 24 * (N + 1)"
    have "(X - 1) * Hour = X * Hour - Hour" by (simp add: left_diff_distrib)
    moreover have "d = (X - 1) * Hour + nsec" using d_eq True by (simp only: X_def)
    moreover have "d + m \<le> X * Hour" using hi' by (simp only: X_def)
    ultimately have nm: "nsec + m \<le> Hour" by linarith
    have "(nsec + m) * P \<le> Hour * P" using nm Ppos by (intro mult_right_mono) simp_all
    then have "nsec * P + m * P \<le> Hour * P" by (simp only: distrib_right)
    with m have "nsec * P + Hour \<le> Hour * P" unfolding P_def by linarith
    then have "(of_int (nsec * P + Hour) :: rat) \<le> of_int (Hour * P)" by (simp only: of_int_le_iff)
    then have "(of_int nsec :: rat) * 2 ^ k + 3600000000000 \<le> 3600000000000 * 2 ^ k"
      by (simp add: Hour_def Prat)
    then have "(of_int nsec :: rat) * 2 ^ k \<le> (2 ^ k - 1) * 3600000000000"
      by (simp add: algebra_simps)
    then have "(of_int nsec :: rat) / 3600000000000 \<le> (2 ^ k - 1) / 2 ^ k"
      by (simp add: pos_le_divide_eq pos_divide_le_eq)
    then have "frac \<le> f64_round ((2 ^ k - 1) / 2 ^ k)" unfolding frac_def by (rule f64_round_mono)
    also have "f64_round ((2 ^ k - 1) / 2 ^ k) = (2 ^ k - 1) / 2 ^ k"
    proof -
      have "0 \<le> P - 1" "P - 1 < 2 ^ 53" using r1' NP Ppos unfolding p53 by linarith+
      then have "f64_round (of_int (P - 1) / 2 ^ k) = of_int (P - 1) / 2 ^ k"
        using kb by (intro f64_round_dyadic)
      then show ?thesis by (simp add: Prat)
    qed
    finally have "frac \<le> (2 ^ k - 1) / 2 ^ k" .
    then have "of_int hour + frac \<le> of_int hour + (2 ^ k - 1) / 2 ^ k" by simp
    also have "\<dots> = of_int B / 2 ^ k"
    proof -
      have "B = hour * P + (P - 1)" by (simp add: True B_def Q_def algebra_simps)
      then have "(of_int B :: rat) = of_int hour * 2 ^ k + (2 ^ k - 1)" by (simp add: Prat)
      then show ?thesis by (simp add: add_divide_distrib)
    qed
    finally show ?thesis .
  next
    case False
    with hour_hi have "hour + 1 \<le> 24 * (N + 1) - 1" by simp
    then have "(of_int (hour + 1) :: rat) \<le> of_int (24 * (N + 1) - 1)" by (simp only: of_int_le_iff)
    then have "of_int hour + frac \<le> (of_int (24 * (N + 1) - 1) :: rat)" using frac1 by simp
    also have "\<dots> \<le> of_int B / 2 ^ k"
    proof -
      have "(24 * (N + 1) - 1) * P = 24 * Q - P" by (simp add: Q_def algebra_simps)
      with Ppos have "(24 * (N + 1) - 1) * P \<le> B" by (simp add: B_def)
      then have "(of_int ((24 * (N + 1) - 1) * P) :: rat) \<le> of_int B" by (simp only: of_int_le_iff)
      then have "(of_int (24 * (N + 1) - 1) :: rat) * 2 ^ k \<le> of_int B" by (simp add: Prat)
      then show ?thesis by (simp only: pos_le_divide_eq[OF Ppos_rat])
    qed
    finally show ?thesis .
  qed
  have "Hours d \<le> f64_round (of_int B / 2 ^ k)" unfolding Hours_eq using s_hi by (rule f64_round_mono)
  also have "\<dots> = of_int B / 2 ^ k" using Bb kb by (intro f64_round_dyadic)
  finally have H_hi: "Hours d \<le> of_int B / 2 ^ k" .
  have k5: "k + 5 \<le> 1074"
  proof (rule ccontr)
    assume "\<not> k + 5 \<le> 1074"
    then have "(2::int) ^ 53 \<le> 2 ^ k" by (intro power_increasing) simp_all
    with r1' NP show False unfolding P_def p53 by linarith
  qed
  have "Hours d / 24 \<le> of_int B / 2 ^ k / 24" using H_hi by simp
  also have "\<dots> \<le> of_int C / 2 ^ (k + 5)"
  proof -
    have "32 * B \<le> 24 * C" by (simp add: B_def C_def)
    then have "(of_int (32 * B) :: rat) \<le> of_int (24 * C)" by (simp only: of_int_le_iff)
    then have "32 * (of_int B :: rat) \<le> 24 * of_int C" by simp
    then have "(of_int B :: rat) / 24 \<le> of_int C / 32" by simp
    then have "(of_int B :: rat) / 24 / 2 ^ k \<le> of_int C / 32 / 2 ^ k"
      using Ppos_rat by (simp only: divide_le_cancel) simp
    then show ?thesis by (simp add: power_add)
  qed
  finally have "f64_round (Hours d / 24) \<le> f64_round (of_int C / 2 ^ (k + 5))" by (rule f64_round_mono)
  also have "\<dots> = of_int C / 2 ^ (k + 5)" using Cb k5 by (intro f64_round_dyadic)
  also have "\<dots> < of_int N + 1"
  proof -
    have "C < (N + 1) * 2 ^ (k + 5)" by (simp add: C_def Q_def P_def power_add)
    then have "(of_int C :: rat) < of_int ((N + 1) * 2 ^ (k + 5))" by (simp only: of_int_less_iff)
    then have "(of_int C :: rat) < (of_int N + 1) * 2 ^ (k + 5)" by simp
    then show ?thesis by (simp add: pos_divide_less_eq)
  qed
  finally have Q_hi: "f64_round (Hours d / 24) < of_int N + 1" .
  have "(0::rat) \<le> of_int N" using N by simp
  with Q_lo have "0 \<le> f64_round (Hours d / 24)" by linarith
  moreover have "\<lfloor>f64_round (Hours d / 24)\<rfloor> = N" using Q_lo Q_hi by (rule floor_unique)
  ultimately show ?thesis by (simp add: Duration_days_def go_int_def)
qed


lemma Sub_in_range: "minDuration \<le> t - u \<Longrightarrow> t - u \<le> maxDuration \<Longrightarrow> Sub t u = t - u"
  by (simp add: Sub_def)

lemma Sub_bounds: "- (2 ^ 63) \<le> Sub t u \<and> Sub t u \<le> 2 ^ 63"
  by (simp add: Sub_def minDuration_def maxDuration_def)










subsection \<open>The day count (line 115)\<close>





subsection \<open>The probe (GetExpirationDate)\<close>

lemma GetExpirationDate_trace: "snd (GetExpirationDate E host tr) = tr @ [dial_event host]"
  by (simp add: GetExpirationDate_def tls_Dial_def dial_event_def host_port_def Let_def
      split: sum.splits)


lemma tls_DialWithDialer_nonempty:
  "tls_DialWithDialer E tr dialer network addr config \<noteq> Inr []"
  by (simp add: tls_DialWithDialer_def split: sum.splits)

lemma Format_2006_01_02_a: "Format_2006_01_02 1704412800000000000 = ''2024-01-05''"
  by code_simp

lemma Format_2006_01_02_d: "Format_2006_01_02 1704063600000000000 = ''2023-12-31''"
  by code_simp

lemma Format_2006_01_02_now: "Format_2006_01_02 1704067200000000000 = ''2024-01-01''"
  by code_simp

lemma scenario_a: "GetExpirationDate scenario_env ''a.example'' tr
    = (Inr 1704412800000000000, tr @ [dial_event ''a.example''])"
  by (simp add: GetExpirationDate_def tls_Dial_def tls_DialWithDialer_def dial_event_def
      host_port_def Let_def scenario_env_def)

lemma scenario_b: "GetExpirationDate scenario_env ''b.example'' tr
    = (Inl (LibError ''connection refused''), tr @ [dial_event ''b.example''])"
  by (simp add: GetExpirationDate_def tls_Dial_def tls_DialWithDialer_def dial_event_def
      host_port_def Let_def scenario_env_def)


lemma scenario_d: "GetExpirationDate scenario_env ''d.example'' tr
    = (Inr 1704063600000000000, tr @ [dial_event ''d.example''])"
  by (simp add: GetExpirationDate_def tls_Dial_def tls_DialWithDialer_def dial_event_def
      host_port_def Let_def scenario_env_def)





text \<open>
  C8 asks for a timeout on the connection attempt of the probe. The probe dials with
  \<^verbatim>\<open>tls.Dial\<close>, hence with the zero dialer: the only event of a probe is a dial whose dialer has
  \<^verbatim>\<open>Timeout\<close> 0, that is none, whatever the host. The other network call of the program does set
  one: the request of \<^verbatim>\<open>SendWxwork\<close> goes through a client with a timeout of 10 seconds.
\<close>

theorem GetExpirationDate_dials_without_timeout:
  "snd (GetExpirationDate E host tr)
     = tr @ [Dial \<lparr>Dialer_Timeout = 0\<rparr> ''tcp'' (host_port host) \<lparr>InsecureSkipVerify = True\<rparr>]
   \<and> (\<forall>e \<in> set (snd (SendWxwork E grp msg level tr)) - set tr.
         \<forall>client url payload. e = Do client url payload \<longrightarrow> Client_Timeout client = 10 * Second)"
  by (auto simp: GetExpirationDate_trace dial_event_def SendWxwork_def Let_def
      split: option.splits sum.splits if_splits prod.splits)

theorem GetExpirationDate_dials_without_timeout_witness:
  "snd (GetExpirationDate scenario_env ''b.example'' [])
     = [Dial \<lparr>Dialer_Timeout = 0\<rparr> ''tcp'' ''b.example:443'' \<lparr>InsecureSkipVerify = True\<rparr>]
   \<and> Do \<lparr>Client_Timeout = 10 * Second\<rparr>
         (''https://qyapi.weixin.qq.com/cgi-bin/webhook/send?key='' @ ''key'')
         (Sprintf_WxworkMsgTplInfo ''m'')
       \<in> set (snd (SendWxwork scenario_env prod_group ''m'' LevelInfo []))"
  using GetExpirationDate_dials_without_timeout[of scenario_env "''b.example''" "[]"
      prod_group "''m''" LevelInfo]
  by (simp add: host_port_def SendWxwork_def Let_def scenario_env_def prod_group_def)

subsection \<open>The notifier (SendWxwork)\<close>

text \<open>
  C10: for a group whose token is the empty string, \<^verbatim>\<open>SendWxwork\<close> returns nil and hands no
  request to the HTTP client: the call itself is the only event it adds to the trace.
\<close>

theorem SendWxwork_empty_token_is_noop:
  "WxworkToken grp = [] \<Longrightarrow>
     fst (SendWxwork E grp msg level tr) = None
     \<and> snd (SendWxwork E grp msg level tr) = tr @ [Call_SendWxwork (Name grp) msg level]
     \<and> requests (snd (SendWxwork E grp msg level tr)) = requests tr"
  by (simp add: SendWxwork_def Let_def requests_def)

theorem SendWxwork_empty_token_is_noop_witness:
  "WxworkToken calm_group = []
   \<and> fst (SendWxwork scenario_env calm_group ''m'' LevelInfo []) = None
   \<and> snd (SendWxwork scenario_env calm_group ''m'' LevelInfo [])
       = [Call_SendWxwork ''calm'' ''m'' LevelInfo]
   \<and> requests (snd (SendWxwork scenario_env calm_group ''m'' LevelInfo [])) = []"
  using SendWxwork_empty_token_is_noop[of calm_group scenario_env "''m''" LevelInfo "[]"]
  by (simp add: calm_group_def requests_def)

subsection \<open>Classification of a probed site (lines 115 to 121)\<close>

lemma Sprintf_expiring_neq_expired: "Sprintf_expiring site d date \<noteq> Sprintf_expired site' date'"
  by (simp add: Sprintf_expiring_def Sprintf_expired_def)

lemma main_site_success:
  assumes "GetExpirationDate E site tr = (Inr expire, tr')"
  shows "main_site E grp today site (alerts, tr) =
     (if daysLeft expire today \<le> DayBeforeExpiration grp \<and> 0 \<le> daysLeft expire today
      then (alerts @ [Sprintf_expiring site (daysLeft expire today) (Format_UTC E expire)], tr')
      else if daysLeft expire today < 0
      then (alerts @ [Sprintf_expired site (Format_UTC E expire)], tr')
      else (alerts, tr'))"
  using assms by (simp add: main_site_def Let_def)

lemma main_site_failure:
  assumes "GetExpirationDate E site tr = (Inl err, tr')"
  shows "main_site E grp today site (alerts, tr) = (alerts @ [Sprintf_check_failed site], tr')"
  using assms by (simp add: main_site_def)

text \<open>
  C1: for a redline \<open>R \<ge> 0\<close> and a site whose probe succeeded with \<open>D\<close> days left, the body of
  the inner loop adds no alert line exactly when \<open>D > R\<close>, adds the "expiring soon" line, which
  mentions \<open>D\<close>, exactly when \<open>0 \<le> D \<le> R\<close>, and adds the "expired" line exactly when \<open>D < 0\<close>;
  this is the classification of the specification into Healthy, ExpiringSoon and Expired: the
  three cases exclude each other and one of them holds.
\<close>

theorem main_site_classification_partition:
  assumes "0 \<le> DayBeforeExpiration grp"
    and "GetExpirationDate E site tr = (Inr expire, tr')"
  shows "(main_site E grp today site (alerts, tr) = (alerts, tr')
            \<longleftrightarrow> DayBeforeExpiration grp < daysLeft expire today)
    \<and> (main_site E grp today site (alerts, tr)
          = (alerts @ [Sprintf_expiring site (daysLeft expire today) (Format_UTC E expire)], tr')
            \<longleftrightarrow> 0 \<le> daysLeft expire today \<and> daysLeft expire today \<le> DayBeforeExpiration grp)
    \<and> (main_site E grp today site (alerts, tr)
          = (alerts @ [Sprintf_expired site (Format_UTC E expire)], tr')
            \<longleftrightarrow> daysLeft expire today < 0)
    \<and> (classify (DayBeforeExpiration grp) today (Inr expire) = Healthy
            \<longleftrightarrow> DayBeforeExpiration grp < daysLeft expire today)
    \<and> (classify (DayBeforeExpiration grp) today (Inr expire) = ExpiringSoon (daysLeft expire today)
            \<longleftrightarrow> 0 \<le> daysLeft expire today \<and> daysLeft expire today \<le> DayBeforeExpiration grp)
    \<and> (classify (DayBeforeExpiration grp) today (Inr expire) = Expired (daysLeft expire today)
            \<longleftrightarrow> daysLeft expire today < 0)"
  using assms(1)
  by (auto simp: main_site_success[OF assms(2)] classify_def Let_def Sprintf_expiring_neq_expired
      Sprintf_expiring_neq_expired[symmetric])

lemma daysLeft_scenario_a: "daysLeft 1704412800000000000 1704067200000000000 = 4"
  by code_simp

theorem main_site_classification_partition_witness:
  "0 \<le> DayBeforeExpiration prod_group
   \<and> GetExpirationDate scenario_env ''a.example'' [] = (Inr 1704412800000000000, [dial_event ''a.example''])
   \<and> main_site scenario_env prod_group 1704067200000000000 ''a.example'' ([], [])
       = ([Sprintf_expiring ''a.example'' 4 ''2024-01-05''], [dial_event ''a.example''])
   \<and> classify 7 1704067200000000000 (Inr 1704412800000000000) = ExpiringSoon 4"
  using main_site_classification_partition[of prod_group scenario_env "''a.example''" "[]"
      1704412800000000000 "[dial_event ''a.example'']" 1704067200000000000 "[]"]
    scenario_a[of "[]"]
  by (simp add: prod_group_def daysLeft_scenario_a scenario_env_def Format_2006_01_02_a)

subsection \<open>A certificate that expired less than a day ago\<close>

lemma Duration_days_last_day:
  assumes "- (24 * Hour) < d" "d < 0"
  shows "Duration_days d = 0"
proof -
  have m: "Hour \<le> 1 * 2 ^ 42" by (simp add: Hour_def)
  have lo: "0 * (24 * Hour) \<le> - d" using assms(2) by simp
  have hi: "- d + 1 \<le> (0 + 1) * (24 * Hour)" using assms(1) by simp
  have "Duration_days (- d) = 0"
    using _ lo hi m by (rule Duration_days_window) simp_all
  then show ?thesis by (simp add: Duration_days_minus)
qed

text \<open>
  C7: when the expiry lies less than 24 hours before the reading of the clock, the day count
  is 0; so for every redline \<open>R \<ge> 0\<close> the site is classified ExpiringSoon 0 and the inner loop
  adds the "expiring soon" line with 0 days, which is not the "expired" line.
\<close>

theorem expired_within_a_day_counts_as_expiring:
  assumes "- (24 * Hour) < expire - today" and "expire - today < 0"
    and "0 \<le> DayBeforeExpiration grp"
    and "GetExpirationDate E site tr = (Inr expire, tr')"
  shows "daysLeft expire today = 0
    \<and> classify (DayBeforeExpiration grp) today (Inr expire) = ExpiringSoon 0
    \<and> main_site E grp today site (alerts, tr)
        = (alerts @ [Sprintf_expiring site 0 (Format_UTC E expire)], tr')
    \<and> main_site E grp today site (alerts, tr)
        \<noteq> (alerts @ [Sprintf_expired site (Format_UTC E expire)], tr')"
proof -
  have "minDuration \<le> expire - today" "expire - today \<le> maxDuration"
    using assms(1,2) by (simp_all add: minDuration_def maxDuration_def Hour_def)
  then have "Sub expire today = expire - today" by (rule Sub_in_range)
  then have d0: "daysLeft expire today = 0"
    using Duration_days_last_day[OF assms(1,2)] by (simp add: daysLeft_days)
  show ?thesis
    using assms(3)
    by (simp add: d0 main_site_success[OF assms(4)] classify_def Sprintf_expiring_neq_expired)
qed

theorem expired_within_a_day_counts_as_expiring_witness:
  "- (24 * Hour) < 1704063600000000000 - 1704067200000000000
   \<and> 1704063600000000000 - 1704067200000000000 < (0::int)
   \<and> 0 \<le> DayBeforeExpiration late_group
   \<and> GetExpirationDate scenario_env ''d.example'' [] = (Inr 1704063600000000000, [dial_event ''d.example''])
   \<and> daysLeft 1704063600000000000 1704067200000000000 = 0
   \<and> main_site scenario_env late_group 1704067200000000000 ''d.example'' ([], [])
       = ([Sprintf_expiring ''d.example'' 0 ''2023-12-31''], [dial_event ''d.example''])"
  using expired_within_a_day_counts_as_expiring[of 1704063600000000000 1704067200000000000
      late_group scenario_env "''d.example''" "[]" "[dial_event ''d.example'']" "[]"]
    scenario_d[of "[]"]
  by (simp add: late_group_def Hour_def scenario_env_def Format_2006_01_02_d)


subsection \<open>The inner loop (lines 107 to 122)\<close>

lemma alert_line_None_iff:
  "alert_line E R today (site, r) = None \<longleftrightarrow> classify R today r = Healthy"
  by (simp add: alert_line_def split: Classification.splits)

lemma main_site_step:
  "main_site E grp today site (alerts, tr) =
     (alerts @ (case alert_line E (DayBeforeExpiration grp) today
                       (site, fst (GetExpirationDate E site tr)) of
                  None \<Rightarrow> [] | Some l \<Rightarrow> [l]),
      tr @ [dial_event site])"
proof (cases "GetExpirationDate E site tr")
  case (Pair r tr')
  have tr': "tr' = tr @ [dial_event site]"
    using GetExpirationDate_trace[of E site tr] Pair by simp
  show ?thesis
  proof (cases r)
    case (Inl err)
    with Pair tr' show ?thesis
      by (simp add: main_site_def alert_line_def classify_def)
  next
    case (Inr expire)
    with Pair tr' show ?thesis
      by (auto simp: main_site_def alert_line_def classify_def Let_def)
  qed
qed

lemma main_sites_eq:
  "main_sites E grp today sites (alerts, tr) =
     (alerts @ List.map_filter (alert_line E (DayBeforeExpiration grp) today)
                 (zip sites (probe_results E sites tr)),
      tr @ map dial_event sites)"
proof (induction sites arbitrary: alerts tr)
  case Nil
  show ?case by (simp add: List.map_filter_simps)
next
  case (Cons site sites)
  show ?case
    by (simp add: main_site_step Cons.IH GetExpirationDate_trace List.map_filter_simps
        split: option.splits)
qed

lemma main_sites_append:
  "main_sites E grp today (before @ rest) st
     = main_sites E grp today rest (main_sites E grp today before st)"
  by (induction before arbitrary: st) simp_all

lemma length_probe_results: "length (probe_results E sites tr) = length sites"
  by (induction sites arbitrary: tr) simp_all

lemma length_alert_lines:
  "length sites = length rs \<Longrightarrow>
   length (List.map_filter (alert_line E R today) (zip sites rs))
     = length (filter (\<lambda>c. c \<noteq> Healthy) (map (classify R today) rs))"
proof (induction sites rs rule: list_induct2)
  case Nil
  show ?case by (simp add: List.map_filter_simps)
next
  case (Cons site sites r rs)
  then show ?case
    using alert_line_None_iff[of E R today site r]
    by (auto simp: List.map_filter_simps split: option.splits)
qed

lemma length_group_alerts:
  "length (group_alerts E grp tr0)
     = length (filter (\<lambda>c. c \<noteq> Healthy) (group_classes E grp tr0))"
  unfolding group_alerts_def group_classes_def
  by (rule length_alert_lines) (simp add: group_results_def length_probe_results)

lemma dials_append: "dials (tr @ tr') = dials tr @ dials tr'"
  by (simp add: dials_def)

lemma dials_dial_events: "dials (map dial_event sites) = map host_port sites"
  by (induction sites) (simp_all add: dials_def dial_event_def)

lemma calls_append: "calls (tr @ tr') = calls tr @ calls tr'"
  by (simp add: calls_def)

lemma calls_dial_events: "calls (map dial_event sites) = []"
  by (induction sites) (simp_all add: calls_def dial_event_def)

lemma calls_SendWxwork:
  "calls (snd (SendWxwork E grp msg level tr)) = calls tr @ [(Name grp, msg, level)]"
  by (simp add: SendWxwork_def Let_def calls_def split: option.splits sum.splits prod.splits)

subsection \<open>The outer loop (lines 103 to 132)\<close>

lemma main_group_eq:
  "main_group E grp tr0 =
     snd (SendWxwork E grp
            (if group_alerts E grp tr0 = []
             then Sprintf_all_clear (group_date E grp tr0) (Name grp) (int (length (Sites grp)))
             else Sprintf_problems (group_date E grp tr0) (Name grp)
                    (int (length (group_alerts E grp tr0)))
                    (Join (group_alerts E grp tr0) [CHR 0x0A]))
            (if group_alerts E grp tr0 = [] then LevelInfo else LevelWarn)
            (tr0 @ [Now] @ map dial_event (Sites grp) @ [Now]))"
  by (simp add: main_group_def main_sites_eq Let_def group_alerts_def group_results_def
      group_date_def)

lemma calls_main_group:
  "calls (main_group E grp tr0) =
     calls tr0 @
     [(Name grp,
       if group_alerts E grp tr0 = []
       then Sprintf_all_clear (group_date E grp tr0) (Name grp) (int (length (Sites grp)))
       else Sprintf_problems (group_date E grp tr0) (Name grp)
              (int (length (group_alerts E grp tr0)))
              (Join (group_alerts E grp tr0) [CHR 0x0A]),
       if group_alerts E grp tr0 = [] then LevelInfo else LevelWarn)]"
  by (simp only: main_group_eq calls_SendWxwork calls_append calls_dial_events)
    (simp add: calls_def)

lemma calls_main_groups:
  "map fst (calls (main_groups E grps tr)) = map fst (calls tr) @ map Name grps"
  by (induction grps arbitrary: tr) (simp_all add: calls_main_group)


subsection \<open>The concrete sweep, evaluated\<close>

lemma scenario_clock: "time_Now scenario_env tr = 1704067200000000000"
  by (simp add: scenario_env_def)

lemma scenario_Format_UTC: "Format_UTC scenario_env 1704412800000000000 = ''2024-01-05''"
  by (simp add: scenario_env_def Format_2006_01_02_a)

lemma scenario_Format_Local: "Format_Local scenario_env (time_Now scenario_env tr) = ''2024-01-01''"
  by (simp add: scenario_env_def Format_2006_01_02_now)

lemma prod_group_fields:
  "Name prod_group = ''prod''" "WxworkToken prod_group = ''key''"
  "DayBeforeExpiration prod_group = 7" "Sites prod_group = [''a.example'', ''b.example'']"
  by (simp_all add: prod_group_def)

lemma calm_group_fields:
  "Name calm_group = ''calm''" "WxworkToken calm_group = []"
  "DayBeforeExpiration calm_group = 3" "Sites calm_group = [''a.example'']"
  by (simp_all add: calm_group_def)

lemma idle_group_fields:
  "Name idle_group = ''idle''" "WxworkToken idle_group = ''key''"
  "DayBeforeExpiration idle_group = 7" "Sites idle_group = []"
  by (simp_all add: idle_group_def)

lemma calls_Nil: "calls [] = []"
  by (simp add: calls_def)

lemma dials_Nil: "dials [] = []"
  by (simp add: dials_def)

lemma scenario_prod_results:
  "group_results scenario_env prod_group []
     = [Inr 1704412800000000000, Inl (LibError ''connection refused'')]"
  by (simp add: group_results_def prod_group_fields scenario_a scenario_b)

lemma scenario_prod_classes:
  "group_classes scenario_env prod_group [] = [ExpiringSoon 4, Unreachable]"
  by (simp add: group_classes_def scenario_prod_results scenario_clock classify_def
      daysLeft_scenario_a prod_group_fields)

lemma scenario_prod_alerts:
  "group_alerts scenario_env prod_group []
     = [Sprintf_expiring ''a.example'' 4 ''2024-01-05'', Sprintf_check_failed ''b.example'']"
  by (simp add: group_alerts_def scenario_prod_results scenario_clock alert_line_def classify_def
      daysLeft_scenario_a scenario_Format_UTC List.map_filter_simps prod_group_fields)

lemma scenario_calm_classes: "group_classes scenario_env calm_group [] = [Healthy]"
  by (simp add: group_classes_def group_results_def scenario_clock classify_def
      daysLeft_scenario_a calm_group_fields scenario_a)

lemma scenario_main_sites_a:
  "main_sites scenario_env prod_group 1704067200000000000 [''a.example''] ([], [])
     = ([Sprintf_expiring ''a.example'' 4 ''2024-01-05''], [dial_event ''a.example''])"
  by (simp add: main_site_success[OF scenario_a] daysLeft_scenario_a scenario_Format_UTC
      prod_group_fields)

subsection \<open>One report per group\<close>

text \<open>
  C3: when at least one site of a group is not healthy (its probe failed, or its certificate
  has expired or is about to), the one call of \<^verbatim>\<open>SendWxwork\<close> for the group has level Warn; its
  message is the header with the number of sites that are not healthy, followed by the alert
  lines joined by newlines; there are as many alert lines as sites that are not healthy, and
  they are the lines of these sites in the order of the site list.
\<close>

theorem group_with_problems_reports_warning:
  assumes "\<exists>c \<in> set (group_classes E grp tr0). c \<noteq> Healthy"
  shows "calls (main_group E grp tr0)
      = calls tr0 @
        [(Name grp,
          Sprintf_problems (group_date E grp tr0) (Name grp)
            (int (length (filter (\<lambda>c. c \<noteq> Healthy) (group_classes E grp tr0))))
            (Join (group_alerts E grp tr0) [CHR 0x0A]),
          LevelWarn)]
    \<and> length (group_alerts E grp tr0)
        = length (filter (\<lambda>c. c \<noteq> Healthy) (group_classes E grp tr0))
    \<and> group_alerts E grp tr0
        = map (the \<circ> alert_line E (DayBeforeExpiration grp) (time_Now E tr0))
            (filter (\<lambda>sr. classify (DayBeforeExpiration grp) (time_Now E tr0) (snd sr) \<noteq> Healthy)
               (zip (Sites grp) (group_results E grp tr0)))"
proof -
  from assms have "filter (\<lambda>c. c \<noteq> Healthy) (group_classes E grp tr0) \<noteq> []"
    by (simp add: filter_empty_conv)
  then have ne: "group_alerts E grp tr0 \<noteq> []"
    using length_group_alerts[of E grp tr0] by auto
  have order: "group_alerts E grp tr0
        = map (the \<circ> alert_line E (DayBeforeExpiration grp) (time_Now E tr0))
            (filter (\<lambda>sr. classify (DayBeforeExpiration grp) (time_Now E tr0) (snd sr) \<noteq> Healthy)
               (zip (Sites grp) (group_results E grp tr0)))"
  proof -
    have "(alert_line E (DayBeforeExpiration grp) (time_Now E tr0) sr \<noteq> None)
        = (classify (DayBeforeExpiration grp) (time_Now E tr0) (snd sr) \<noteq> Healthy)" for sr
      by (cases sr) (simp add: alert_line_None_iff)
    then show ?thesis by (simp add: group_alerts_def List.map_filter_def)
  qed
  have sent: "calls (main_group E grp tr0)
      = calls tr0 @
        [(Name grp,
          Sprintf_problems (group_date E grp tr0) (Name grp)
            (int (length (filter (\<lambda>c. c \<noteq> Healthy) (group_classes E grp tr0))))
            (Join (group_alerts E grp tr0) [CHR 0x0A]),
          LevelWarn)]"
    using ne by (simp add: calls_main_group length_group_alerts)
  show ?thesis
    by (rule conjI[OF sent conjI[OF length_group_alerts order]])
qed

theorem group_with_problems_reports_warning_witness:
  "Unreachable \<in> set (group_classes scenario_env prod_group [])
   \<and> calls (main_group scenario_env prod_group [])
      = [(''prod'',
          Sprintf_problems ''2024-01-01'' ''prod'' 2
            (Join [Sprintf_expiring ''a.example'' 4 ''2024-01-05'',
                   Sprintf_check_failed ''b.example''] [CHR 0x0A]),
          LevelWarn)]
   \<and> length (group_alerts scenario_env prod_group []) = 2"
proof -
  have h: "\<exists>c \<in> set (group_classes scenario_env prod_group []). c \<noteq> Healthy"
    by (simp add: scenario_prod_classes)
  note w = group_with_problems_reports_warning[OF h]
  show ?thesis
    using w[THEN conjunct1] w[THEN conjunct2, THEN conjunct1]
    by (simp add: scenario_prod_classes scenario_prod_alerts group_date_def
        scenario_Format_Local calls_Nil prod_group_fields)
qed

text \<open>
  C5: when every site of a group is classified Healthy, the one call of \<^verbatim>\<open>SendWxwork\<close> for
  the group has level Info and its message is the "all clear" text with the number of sites
  of the group; a group with no site is such a group, and its message gives 0 sites.
\<close>

theorem healthy_group_reports_all_clear:
  "((\<forall>c \<in> set (group_classes E grp tr0). c = Healthy) \<longrightarrow>
      calls (main_group E grp tr0)
        = calls tr0 @
          [(Name grp,
            Sprintf_all_clear (group_date E grp tr0) (Name grp) (int (length (Sites grp))),
            LevelInfo)])
   \<and> (Sites grp = [] \<longrightarrow>
      calls (main_group E grp tr0)
        = calls tr0 @
          [(Name grp, Sprintf_all_clear (group_date E grp tr0) (Name grp) 0, LevelInfo)])"
proof (intro conjI impI)
  assume "\<forall>c \<in> set (group_classes E grp tr0). c = Healthy"
  then have "filter (\<lambda>c. c \<noteq> Healthy) (group_classes E grp tr0) = []"
    by (simp add: filter_empty_conv)
  then have "group_alerts E grp tr0 = []"
    using length_group_alerts[of E grp tr0] by simp
  then show "calls (main_group E grp tr0)
        = calls tr0 @
          [(Name grp,
            Sprintf_all_clear (group_date E grp tr0) (Name grp) (int (length (Sites grp))),
            LevelInfo)]"
    by (simp add: calls_main_group)
next
  assume "Sites grp = []"
  then show "calls (main_group E grp tr0)
        = calls tr0 @
          [(Name grp, Sprintf_all_clear (group_date E grp tr0) (Name grp) 0, LevelInfo)]"
    by (simp add: calls_main_group group_alerts_def List.map_filter_simps)
qed

theorem healthy_group_reports_all_clear_witness:
  "set (group_classes scenario_env calm_group []) = {Healthy}
   \<and> calls (main_group scenario_env calm_group [])
       = [(''calm'', Sprintf_all_clear ''2024-01-01'' ''calm'' 1, LevelInfo)]
   \<and> Sites idle_group = []
   \<and> calls (main_group scenario_env idle_group [])
       = [(''idle'', Sprintf_all_clear ''2024-01-01'' ''idle'' 0, LevelInfo)]"
  using healthy_group_reports_all_clear[of scenario_env calm_group "[]"]
    healthy_group_reports_all_clear[of scenario_env idle_group "[]"]
  by (simp add: scenario_calm_classes group_date_def scenario_Format_Local calls_Nil
      calm_group_fields idle_group_fields)

text \<open>
  C4: the evaluation of a group adds exactly one call of \<^verbatim>\<open>SendWxwork\<close> to the trace, for
  that group, whatever its alerts; so a sweep makes exactly one call per group of the
  configuration, in the order of the groups.
\<close>

theorem one_SendWxwork_call_per_group:
  "(\<exists>msg level. calls (main_group E grp tr) = calls tr @ [(Name grp, msg, level)])
   \<and> map fst (calls (main_loop E config)) = map Name (Groups config)
   \<and> length (calls (main_loop E config)) = length (Groups config)"
proof -
  have 1: "\<exists>msg level. calls (main_group E grp tr) = calls tr @ [(Name grp, msg, level)]"
    by (simp add: calls_main_group)
  have 2: "map fst (calls (main_loop E config)) = map Name (Groups config)"
    by (simp add: main_loop_def calls_main_groups calls_Nil)
  from 2 have "length (map fst (calls (main_loop E config))) = length (map Name (Groups config))"
    by (rule arg_cong)
  then have 3: "length (calls (main_loop E config)) = length (Groups config)" by simp
  from 1 2 3 show ?thesis by blast
qed

theorem one_SendWxwork_call_per_group_witness:
  "map fst (calls (main_loop scenario_env scenario_config)) = [''prod'', ''calm'', ''idle'']
   \<and> length (calls (main_loop scenario_env scenario_config)) = 3"
  using one_SendWxwork_call_per_group[of scenario_env prod_group "[]" scenario_config]
  by (simp add: scenario_config_def prod_group_fields calm_group_fields idle_group_fields)

text \<open>
  C6: when the probe of a site returns an error, the inner loop adds the "check failed" line
  for the site (the site is Unreachable) and goes on with the sites after it: the alerts of
  the whole list are those before the site, the line of the site, and the lines of the sites
  after it, probed from the trace the failed dial left; every site of the list is dialled,
  in order; and the outer loop goes on with the groups after this one, each of which gets its
  call of \<^verbatim>\<open>SendWxwork\<close>.
\<close>

theorem failed_probe_is_reported_and_sweep_continues:
  assumes "main_sites E grp today before st = (alerts, tr)"
    and "fst (GetExpirationDate E site tr) = Inl err"
  shows "main_sites E grp today (before @ site # rest) st
      = main_sites E grp today rest (alerts @ [Sprintf_check_failed site], tr @ [dial_event site])
    \<and> classify (DayBeforeExpiration grp) today (fst (GetExpirationDate E site tr)) = Unreachable
    \<and> fst (main_sites E grp today (before @ site # rest) st)
        = alerts @ [Sprintf_check_failed site] @
          List.map_filter (alert_line E (DayBeforeExpiration grp) today)
            (zip rest (probe_results E rest (tr @ [dial_event site])))
    \<and> dials (snd (main_sites E grp today (before @ site # rest) st))
        = dials (snd st) @ map host_port (before @ site # rest)
    \<and> main_groups E (grp # grps) tr0 = main_groups E grps (main_group E grp tr0)
    \<and> map fst (calls (main_groups E (grp # grps) tr0))
        = map fst (calls tr0) @ Name grp # map Name grps"
proof -
  have probe: "GetExpirationDate E site tr = (Inl err, tr @ [dial_event site])"
    using assms(2) GetExpirationDate_trace[of E site tr] by (simp add: prod_eq_iff)
  have step: "main_sites E grp today (before @ site # rest) st
      = main_sites E grp today rest (alerts @ [Sprintf_check_failed site], tr @ [dial_event site])"
    by (simp add: main_sites_append assms(1) main_site_failure[OF probe])
  have dialled: "dials (snd (main_sites E grp today (before @ site # rest) st))
        = dials (snd st) @ map host_port (before @ site # rest)"
    by (cases st) (simp add: main_sites_eq dials_append dials_dial_events del: map_append)
  have unreachable:
    "classify (DayBeforeExpiration grp) today (fst (GetExpirationDate E site tr)) = Unreachable"
    by (simp add: assms(2) classify_def)
  have lines: "fst (main_sites E grp today (before @ site # rest) st)
        = alerts @ [Sprintf_check_failed site] @
          List.map_filter (alert_line E (DayBeforeExpiration grp) today)
            (zip rest (probe_results E rest (tr @ [dial_event site])))"
    by (simp add: step main_sites_eq)
  have next_group: "main_groups E (grp # grps) tr0 = main_groups E grps (main_group E grp tr0)"
    by simp
  have all_groups: "map fst (calls (main_groups E (grp # grps) tr0))
        = map fst (calls tr0) @ Name grp # map Name grps"
    using calls_main_groups[of E "grp # grps" tr0] by simp
  show ?thesis
    by (rule conjI[OF step conjI[OF unreachable conjI[OF lines conjI[OF dialled
          conjI[OF next_group all_groups]]]]])
qed

theorem failed_probe_is_reported_and_sweep_continues_witness:
  "main_sites scenario_env prod_group 1704067200000000000 [''a.example''] ([], [])
      = ([Sprintf_expiring ''a.example'' 4 ''2024-01-05''], [dial_event ''a.example''])
   \<and> fst (GetExpirationDate scenario_env ''b.example'' [dial_event ''a.example''])
      = Inl (LibError ''connection refused'')
   \<and> fst (main_sites scenario_env prod_group 1704067200000000000
            ([''a.example''] @ ''b.example'' # [''a.example'']) ([], []))
      = [Sprintf_expiring ''a.example'' 4 ''2024-01-05'', Sprintf_check_failed ''b.example'',
         Sprintf_expiring ''a.example'' 4 ''2024-01-05'']
   \<and> dials (snd (main_sites scenario_env prod_group 1704067200000000000
            ([''a.example''] @ ''b.example'' # [''a.example'']) ([], [])))
      = [''a.example:443'', ''b.example:443'', ''a.example:443'']"
proof -
  have b: "fst (GetExpirationDate scenario_env ''b.example'' [dial_event ''a.example''])
      = Inl (LibError ''connection refused'')"
    by (simp add: scenario_b)
  have rest: "List.map_filter (alert_line scenario_env 7 1704067200000000000)
      (zip [''a.example''] (probe_results scenario_env [''a.example'']
         ([dial_event ''a.example''] @ [dial_event ''b.example''])))
    = [Sprintf_expiring ''a.example'' 4 ''2024-01-05'']"
    by (simp add: scenario_a List.map_filter_simps alert_line_def classify_def
        daysLeft_scenario_a scenario_Format_UTC)
  have r: "DayBeforeExpiration prod_group = 7" by (simp add: prod_group_fields)
  note w = failed_probe_is_reported_and_sweep_continues[OF scenario_main_sites_a b,
      of "[''a.example'']" "[]" "[]"]
  have l: "fst (main_sites scenario_env prod_group 1704067200000000000
            ([''a.example''] @ ''b.example'' # [''a.example'']) ([], []))
      = [Sprintf_expiring ''a.example'' 4 ''2024-01-05'', Sprintf_check_failed ''b.example'',
         Sprintf_expiring ''a.example'' 4 ''2024-01-05'']"
    using w[THEN conjunct2, THEN conjunct2, THEN conjunct1] unfolding r rest by simp
  have d: "dials (snd (main_sites scenario_env prod_group 1704067200000000000
            ([''a.example''] @ ''b.example'' # [''a.example'']) ([], [])))
      = [''a.example:443'', ''b.example:443'', ''a.example:443'']"
    using w[THEN conjunct2, THEN conjunct2, THEN conjunct2, THEN conjunct1]
    by (simp add: dials_Nil host_port_def)
  show ?thesis
    by (rule conjI[OF scenario_main_sites_a conjI[OF b conjI[OF l d]]])
qed

end
